theory Spec2Isabelle
  imports Main "HOL-Library.AList"
begin

section \<open>The subtitles plugin (lib/plugin/subtitles.js)\<close>

text \<open>
  The plugin listens to four events of the test runner (test.before, step.started,
  step.finished, test.after), collects one record per step in the module variable
  \<open>steps\<close> and, when the finished test has a video artifact, writes a subtitle file
  next to the video.

  Conventions of the embedding.
  \<^item> A number of the host language is an \<open>int\<close>: every number the plugin computes with is
    a reading of the clock (an integral number of milliseconds) or a difference of two
    readings, far inside the range where doubles are exact and dates are valid. The one
    non-number that can arise, \<open>Date.now() - undefined = NaN\<close>, is a branch of
    \<open>elapsed\<close> below.
  \<^item> A string is a \<open>string\<close>; one \<open>char\<close> stands for one code unit, which is what
    \<open>length\<close> and \<open>substring\<close> count.
  \<^item> The clock reading, the generated identifier (the value of \<open>uuidv4()\<close>) and the
    outcome of the file write are inputs of the handlers.
  \<^item> The objects of the plugin are plain objects, which inherit from
    \<open>Object.prototype\<close>. The state therefore holds, besides the two module variables,
    the \<open>end\<close> properties that the plugin can write to built-in objects.
\<close>

subsection \<open>Number.prototype.toString and String.prototype.padStart\<close>

definition digitChar :: "nat \<Rightarrow> char" where
  "digitChar d = ''0123456789'' ! d"

fun natToString :: "nat \<Rightarrow> string" where
  "natToString n =
     (if n < 10 then [digitChar n]
      else natToString (n div 10) @ [digitChar (n mod 10)])"

declare natToString.simps [simp del]

definition toString :: "int \<Rightarrow> string" where
  "toString i =
     (if i < 0 then CHR ''-'' # natToString (nat (- i)) else natToString (nat i))"

definition padStart :: "nat \<Rightarrow> char \<Rightarrow> string \<Rightarrow> string" where
  "padStart n c s = replicate (n - length s) c @ s"

subsection \<open>The Date object used by formatTimestamp\<close>

text \<open>
  \<open>new Date(0, 0, 0, 0, 0, 0, ms)\<close> is the local time \<open>ms\<close> milliseconds after
  midnight of day 0 of January 1900, that is of 31 December 1899, day \<open>-25568\<close> of
  the epoch. \<open>getHours\<close>, \<open>getMinutes\<close> and \<open>getSeconds\<close> read the local time of
  day of that instant. The local time zone is taken to have one offset in the period
  reached, so that the conversion to universal time and back cancels.
\<close>

definition newDate :: "int \<Rightarrow> int" where
  "newDate ms = (- 25568) * 86400000 + ms"

definition getHours :: "int \<Rightarrow> int" where
  "getHours t = (t div 3600000) mod 24"

definition getMinutes :: "int \<Rightarrow> int" where
  "getMinutes t = (t div 60000) mod 60"

definition getSeconds :: "int \<Rightarrow> int" where
  "getSeconds t = (t div 1000) mod 60"

subsection \<open>formatTimestamp\<close>

definition formatTimestamp :: "int \<Rightarrow> string" where
  "formatTimestamp timestampInMs =
     (let date = newDate timestampInMs;
          hours = getHours date;
          minutes = getMinutes date;
          seconds = getSeconds date;
          ms = timestampInMs - (hours * 3600000 + minutes * 60000 + seconds * 1000)
      in padStart 2 (CHR ''0'') (toString hours) @ '':''
         @ padStart 2 (CHR ''0'') (toString minutes) @ '':''
         @ padStart 2 (CHR ''0'') (toString seconds) @ ''#''
         @ padStart 3 (CHR ''0'') (toString ms))"

subsection \<open>The paired parser of the round-trip property\<close>

text \<open>
  Modelled from the spec: the parser paired with the formatter is no part of the
  repository. It reads the grammar \<open>HH:MM:SS#mmm\<close>: an hour field of two or more
  digits (hours are not bounded), a colon, a minute field of exactly two digits below
  60, a colon, a second field of exactly two digits below 60, the placeholder \<open>#\<close>,
  and a millisecond field of exactly three digits. It returns
  hours * 3600000 + minutes * 60000 + seconds * 1000 + milliseconds, and nothing for
  a string outside the grammar.
\<close>

definition isDigit :: "char \<Rightarrow> bool" where
  "isDigit c = (48 \<le> (of_char c :: nat) \<and> (of_char c :: nat) \<le> 57)"

definition digitVal :: "char \<Rightarrow> nat" where
  "digitVal c = of_char c - 48"

definition parseNat :: "string \<Rightarrow> nat option" where
  "parseNat s =
     (if s \<noteq> [] \<and> list_all isDigit s
      then Some (foldl (\<lambda>a c. 10 * a + digitVal c) 0 s) else None)"

definition splitAt :: "char \<Rightarrow> string \<Rightarrow> (string \<times> string) option" where
  "splitAt c s =
     (if c \<in> set s
      then Some (takeWhile (\<lambda>x. x \<noteq> c) s, tl (dropWhile (\<lambda>x. x \<noteq> c) s))
      else None)"

definition parseTimestamp :: "string \<Rightarrow> int option" where
  "parseTimestamp s =
     (case splitAt (CHR '':'') s of None \<Rightarrow> None | Some (hh, r1) \<Rightarrow>
      (case splitAt (CHR '':'') r1 of None \<Rightarrow> None | Some (mm, r2) \<Rightarrow>
      (case splitAt (CHR ''#'') r2 of None \<Rightarrow> None | Some (ss, mmm) \<Rightarrow>
      (case parseNat hh of None \<Rightarrow> None | Some hours \<Rightarrow>
      (case parseNat mm of None \<Rightarrow> None | Some minutes \<Rightarrow>
      (case parseNat ss of None \<Rightarrow> None | Some seconds \<Rightarrow>
      (case parseNat mmm of None \<Rightarrow> None | Some milliseconds \<Rightarrow>
         if 2 \<le> length hh \<and> length mm = 2 \<and> length ss = 2 \<and> length mmm = 3
            \<and> minutes < 60 \<and> seconds < 60
         then Some (int (hours * 3600000 + minutes * 60000 + seconds * 1000)
                    + int milliseconds)
         else None)))))))"

section \<open>Session state and event handlers\<close>

subsection \<open>Data\<close>

text \<open>
  The own property \<open>end\<close> of a step record is the field \<open>stepEnd\<close>; it is absent
  until the step finishes. The property \<open>id\<close> of a step descriptor is the field
  \<open>id'\<close>.
\<close>

record stepRecord =
  start :: string
  startedAt :: int
  title :: string
  stepEnd :: "string option"

text \<open>
  The module variables. \<open>steps\<close> is an object used as a dictionary: its own keys are
  the generated identifiers, which are enumerated in the order of their first
  insertion (they are UUID strings, never array indices). An association list with
  \<open>AList.update\<close> has that behaviour: an assignment to a present key keeps its place,
  one to a new key appends. \<open>testStartedAt\<close> is undefined until the first test starts.

  \<open>steps\<close> is created as \<open>{}\<close>, so a read \<open>steps[name]\<close> of a name that is no own key
  goes on to \<open>Object.prototype\<close>. \<open>inheritedNames\<close> are the properties found there in
  the host (Node.js); each of them is an object, hence truthy, and \<open>__proto__\<close> is
  \<open>Object.prototype\<close> itself. \<open>builtinEnd\<close> holds the \<open>end\<close> property of each of
  these built-in objects, by the name under which \<open>steps\<close> inherits the object; all
  are absent when the process starts. Its entry for \<open>__proto__\<close> is
  \<open>Object.prototype.end\<close>, which every object without an \<open>end\<close> of its own inherits.
\<close>

definition inheritedNames :: "string list" where
  "inheritedNames =
     [''constructor'', ''__defineGetter__'', ''__defineSetter__'', ''hasOwnProperty'',
      ''__lookupGetter__'', ''__lookupSetter__'', ''isPrototypeOf'',
      ''propertyIsEnumerable'', ''toString'', ''valueOf'', ''__proto__'',
      ''toLocaleString'']"

record session =
  testStartedAt :: "int option"
  steps :: "(string \<times> stepRecord) list"
  builtinEnd :: "string \<rightharpoonup> string"

definition initialSession :: session where
  "initialSession = \<lparr>testStartedAt = None, steps = [], builtinEnd = Map.empty\<rparr>"

text \<open>
  A step descriptor as the runner passes it: \<open>args\<close> may be missing, and its elements
  are taken in their string form. A test result carries an optional artifact map.
  The configuration is the object given to the plugin, with an optional \<open>format\<close>.
\<close>

record step =
  actor :: string
  name :: string
  args :: "string list option"
  id' :: "string option"

record test =
  artifacts :: "(string \<rightharpoonup> string) option"

record config =
  format :: "string option"

subsection \<open>Helpers of the host language\<close>

fun join :: "string \<Rightarrow> string list \<Rightarrow> string" where
  "join sep [] = []"
| "join sep [x] = x"
| "join sep (x # y # ys) = x @ sep @ join sep (y # ys)"

text \<open>Truthiness of a value that is a string or undefined.\<close>

definition truthy :: "string option \<Rightarrow> bool" where
  "truthy v = (case v of None \<Rightarrow> False | Some s \<Rightarrow> s \<noteq> [])"

text \<open>\<open>s.replace(c, r)\<close> for a one-character pattern: the first occurrence only.\<close>

fun replaceFirst :: "char \<Rightarrow> string \<Rightarrow> string \<Rightarrow> string" where
  "replaceFirst c r [] = []"
| "replaceFirst c r (x # xs) = (if x = c then r @ xs else x # replaceFirst c r xs)"

definition nl :: string where
  "nl = [CHR 0x0A]"

text \<open>
  \<open>formatTimestamp(now - testStartedAt)\<close>. While \<open>testStartedAt\<close> is undefined the
  difference is NaN, the Date object is invalid, its getters return NaN, and every
  field of the result reads NaN.
\<close>

definition elapsed :: "int \<Rightarrow> int option \<Rightarrow> string" where
  "elapsed now base =
     (case base of
        None \<Rightarrow> ''NaN:NaN:NaN#NaN''
      | Some t0 \<Rightarrow> formatTimestamp (now - t0))"

subsection \<open>test.before\<close>

definition testBefore :: "int \<Rightarrow> session \<Rightarrow> session" where
  "testBefore now s = s\<lparr>testStartedAt := Some now, steps := []\<rparr>"

subsection \<open>step.started\<close>

definition stepTitle :: "step \<Rightarrow> string" where
  "stepTitle step =
     (let title = actor step @ ''.'' @ name step @ ''(''
                  @ (case args step of Some as \<Rightarrow> join '','' as | None \<Rightarrow> [])
                  @ '')''
      in if length title > 100 then take 100 title @ ''...'' else title)"

text \<open>
  \<open>now\<close> is the reading of the clock and \<open>uuid\<close> the identifier generated for the
  step. The handler returns the descriptor, which now carries the identifier, and the
  new session.
\<close>

definition stepStarted :: "int \<Rightarrow> string \<Rightarrow> step \<Rightarrow> session \<Rightarrow> step \<times> session" where
  "stepStarted now uuid step s =
     (let stepStartedAt = now;
          step' = step\<lparr>id' := Some uuid\<rparr>;
          title = stepTitle step'
      in (step',
          s\<lparr>steps := AList.update uuid
                \<lparr>start = elapsed stepStartedAt (testStartedAt s),
                 startedAt = stepStartedAt,
                 title = title,
                 stepEnd = None\<rparr> (steps s)\<rparr>))"

subsection \<open>step.finished\<close>

text \<open>
  The guard \<open>step && step.id && steps[step.id]\<close> and the assignment
  \<open>steps[step.id].end = ...\<close>. The read \<open>steps[step.id]\<close> finds the record stored
  under the identifier; failing that, for an inherited name, it finds the built-in
  object, and the assignment sets the \<open>end\<close> property of that object. For every other
  identifier the read is undefined, except for \<open>end\<close> once \<open>Object.prototype.end\<close> is
  set: the read is then a string, and the assignment to a property of a string has no
  effect.
\<close>

definition stepFinished :: "int \<Rightarrow> step option \<Rightarrow> session \<Rightarrow> session" where
  "stepFinished now stepArg s =
     (case stepArg of
        None \<Rightarrow> s
      | Some step \<Rightarrow>
          (case id' step of
             None \<Rightarrow> s
           | Some i \<Rightarrow>
               if i = [] then s
               else
                 (case map_of (steps s) i of
                    Some r \<Rightarrow>
                      s\<lparr>steps := AList.update i
                            (r\<lparr>stepEnd := Some (elapsed now (testStartedAt s))\<rparr>)
                            (steps s)\<rparr>
                  | None \<Rightarrow>
                      if i \<in> set inheritedNames
                      then s\<lparr>builtinEnd :=
                             (builtinEnd s)(i \<mapsto> elapsed now (testStartedAt s))\<rparr>
                      else s)))"

subsection \<open>test.after\<close>

text \<open>
  One cue, as the template of the loop body writes it; \<open>index\<close> is the position of the
  step in the sorted array.
\<close>

definition cue :: "char \<Rightarrow> nat \<Rightarrow> stepRecord \<Rightarrow> string \<Rightarrow> string" where
  "cue msIdentifier index step ending =
     natToString (index + 1) @ nl
     @ replaceFirst (CHR ''#'') [msIdentifier] (start step) @ '' --> ''
     @ replaceFirst (CHR ''#'') [msIdentifier] ending @ nl
     @ title step @ nl @ nl"

text \<open>
  The read \<open>step.end\<close> of a record: its own property, and without one the property
  inherited from \<open>Object.prototype\<close>, whose value is \<open>inherited\<close>.
\<close>

definition readEnd :: "string option \<Rightarrow> stepRecord \<Rightarrow> string option" where
  "readEnd inherited step =
     (case stepEnd step of Some ending \<Rightarrow> Some ending | None \<Rightarrow> inherited)"

definition endOf :: "session \<Rightarrow> stepRecord \<Rightarrow> string option" where
  "endOf s step = readEnd (builtinEnd s ''__proto__'') step"

text \<open>The loop \<open>stepsSortedByStartTime.forEach((step, index) => ...)\<close>.\<close>

fun forEachStep ::
  "char \<Rightarrow> string option \<Rightarrow> stepRecord list \<Rightarrow> nat \<Rightarrow> string \<Rightarrow> string" where
  "forEachStep msIdentifier inherited [] index subtitle = subtitle"
| "forEachStep msIdentifier inherited (step # rest) index subtitle =
     forEachStep msIdentifier inherited rest (index + 1)
       (case readEnd inherited step of
          None \<Rightarrow> subtitle
        | Some ending \<Rightarrow>
            if ending \<noteq> []
            then subtitle @ cue msIdentifier index step ending else subtitle)"

text \<open>
  \<open>Object.values(steps)\<close> sorted by \<open>startedAt\<close>. The array sort of the host language is
  stable, and so is \<open>sort_key\<close>.
\<close>

definition stepsSortedByStartTime :: "session \<Rightarrow> stepRecord list" where
  "stepsSortedByStartTime s = sort_key startedAt (map snd (steps s))"

definition subtitleFormat :: "config \<Rightarrow> string" where
  "subtitleFormat config = (if format config = Some ''WEBVTT'' then ''vtt'' else ''srt'')"

definition msIdentifier :: "config \<Rightarrow> char" where
  "msIdentifier config = (if subtitleFormat config = ''vtt'' then CHR ''.'' else CHR '','')"

definition subtitleText :: "config \<Rightarrow> session \<Rightarrow> string" where
  "subtitleText config s =
     forEachStep (msIdentifier config) (builtinEnd s ''__proto__'')
       (stepsSortedByStartTime s) 0
       (if subtitleFormat config = ''vtt'' then ''WEBVTT'' @ nl @ nl else [])"

text \<open>
  The cues that the loop appends, as a list: the position of the step in the array, the
  step and the end offset read from it, for every step whose \<open>step.end\<close> is truthy.
  The lemma \<open>forEachStep_cues\<close> below relates the list to the loop.
\<close>

fun cues ::
  "string option \<Rightarrow> nat \<Rightarrow> stepRecord list \<Rightarrow> (nat \<times> stepRecord \<times> string) list" where
  "cues inherited index [] = []"
| "cues inherited index (step # rest) =
     (case readEnd inherited step of
        None \<Rightarrow> []
      | Some ending \<Rightarrow> if ending \<noteq> [] then [(index, step, ending)] else [])
     @ cues inherited (index + 1) rest"

definition cueText :: "char \<Rightarrow> nat \<times> stepRecord \<times> string \<Rightarrow> string" where
  "cueText sep c = (case c of (index, step, ending) \<Rightarrow> cue sep index step ending)"

definition emittedCues :: "session \<Rightarrow> (nat \<times> stepRecord \<times> string) list" where
  "emittedCues s = cues (builtinEnd s ''__proto__'') 0 (stepsSortedByStartTime s)"

text \<open>
  The condition \<open>test && test.artifacts && test.artifacts.video\<close>, and the video path
  when it holds.
\<close>

definition videoOf :: "test option \<Rightarrow> string option" where
  "videoOf testArg =
     (case testArg of
        None \<Rightarrow> None
      | Some t \<Rightarrow>
          (case artifacts t of
             None \<Rightarrow> None
           | Some arts \<Rightarrow> if truthy (arts ''video'') then arts ''video'' else None))"

text \<open>
  What the handler did to the file system: nothing, one file written, or one write
  that was rejected, in which case the error propagates to the caller.
\<close>

datatype effect = NoWrite | Written string string | WriteRejected string string

text \<open>
  \<open>pathParse\<close> stands for \<open>path.parse\<close> of the platform and gives the \<open>dir\<close> and
  \<open>name\<close> of a path; \<open>writeOk\<close> tells whether the write of the file succeeds. The
  handler returns the test result, whose artifact map it may have extended, and the
  effect. The session is only read.
\<close>

definition testAfter ::
  "(string \<Rightarrow> string \<times> string) \<Rightarrow> config \<Rightarrow> bool \<Rightarrow> session \<Rightarrow> test option
     \<Rightarrow> test option \<times> effect" where
  "testAfter pathParse config writeOk s testArg =
     (case videoOf testArg of
        None \<Rightarrow> (testArg, NoWrite)
      | Some video \<Rightarrow>
          (let subtitle = subtitleText config s;
               (artifactsDirectory, fileName) = pathParse video;
               file = artifactsDirectory @ ''/'' @ fileName @ ''.'' @ subtitleFormat config
           in if writeOk
              then (map_option
                      (\<lambda>t. t\<lparr>artifacts :=
                             map_option (\<lambda>arts. arts(''subtitle'' \<mapsto> file)) (artifacts t)\<rparr>)
                      testArg,
                    Written file subtitle)
              else (testArg, WriteRejected file subtitle)))"

subsection \<open>The event stream\<close>

datatype event =
    TestBefore int
  | StepStarted int string step
  | StepFinished int "step option"
  | TestAfter bool "test option"

datatype reply = Silent | StepOut step | TestOut "test option" effect

fun dispatch ::
  "(string \<Rightarrow> string \<times> string) \<Rightarrow> config \<Rightarrow> event \<Rightarrow> session \<Rightarrow> session \<times> reply" where
  "dispatch pp config (TestBefore now) s = (testBefore now s, Silent)"
| "dispatch pp config (StepStarted now uuid step) s =
     (case stepStarted now uuid step s of (step', s') \<Rightarrow> (s', StepOut step'))"
| "dispatch pp config (StepFinished now stepArg) s = (stepFinished now stepArg s, Silent)"
| "dispatch pp config (TestAfter writeOk testArg) s =
     (case testAfter pp config writeOk s testArg of (t, e) \<Rightarrow> (s, TestOut t e))"

fun run ::
  "(string \<Rightarrow> string \<times> string) \<Rightarrow> config \<Rightarrow> event list \<Rightarrow> session
     \<Rightarrow> session \<times> reply list" where
  "run pp config [] s = (s, [])"
| "run pp config (e # es) s =
     (case dispatch pp config e s of
        (s', out) \<Rightarrow> (case run pp config es s' of (s'', outs) \<Rightarrow> (s'', out # outs)))"

section \<open>Properties of the formatter\<close>

subsection \<open>Decimal numerals\<close>

lemma digit_cases:
  "d < 10 \<Longrightarrow> d = 0 \<or> d = 1 \<or> d = 2 \<or> d = 3 \<or> d = 4 \<or> d = 5 \<or> d = 6 \<or> d = 7 \<or> d = 8
     \<or> d = (9::nat)"
  by arith

lemma isDigit_digitChar: "d < 10 \<Longrightarrow> isDigit (digitChar d)"
  by (drule digit_cases) (auto simp: isDigit_def digitChar_def)

lemma digitVal_digitChar: "d < 10 \<Longrightarrow> digitVal (digitChar d) = d"
  by (drule digit_cases) (auto simp: digitVal_def digitChar_def)

lemma isDigit_zero: "isDigit (CHR ''0'')"
  by (simp add: isDigit_def)

lemma digitVal_zero: "digitVal (CHR ''0'') = 0"
  by (simp add: digitVal_def)

lemma natToString_digits: "list_all isDigit (natToString n)"
proof (induction n rule: natToString.induct)
  case (1 n)
  show ?case
  proof (cases "n < 10")
    case True
    then show ?thesis by (subst natToString.simps) (simp add: isDigit_digitChar)
  next
    case False
    with 1 show ?thesis by (subst natToString.simps) (simp add: isDigit_digitChar)
  qed
qed

lemma natToString_small: "n < 10 \<Longrightarrow> natToString n = [digitChar n]"
  by (subst natToString.simps) simp

lemma natToString_large:
  "10 \<le> n \<Longrightarrow> natToString n = natToString (n div 10) @ [digitChar (n mod 10)]"
  by (subst natToString.simps) simp

lemma natToString_nonempty: "natToString n \<noteq> []"
  by (subst natToString.simps) simp

lemma foldl_natToString:
  "foldl (\<lambda>a c. 10 * a + digitVal c) 0 (natToString n) = n"
proof (induction n rule: natToString.induct)
  case (1 n)
  show ?case
  proof (cases "n < 10")
    case True
    then show ?thesis by (subst natToString.simps) (simp add: digitVal_digitChar)
  next
    case False
    with 1 show ?thesis by (subst natToString.simps) (simp add: digitVal_digitChar)
  qed
qed

lemma foldl_zeros:
  "foldl (\<lambda>a c. 10 * a + digitVal c) 0 (replicate k (CHR ''0'')) = 0"
  by (induction k) (simp_all add: digitVal_zero)

lemma padStart_digits:
  "list_all isDigit (padStart k (CHR ''0'') (natToString n))"
  using natToString_digits [of n]
  by (auto simp: padStart_def isDigit_zero list_all_iff)

lemma padStart_nonempty: "padStart k c (natToString n) \<noteq> []"
  by (simp add: padStart_def natToString_nonempty)

lemma parseNat_padStart:
  "parseNat (padStart k (CHR ''0'') (natToString n)) = Some n"
proof -
  have "foldl (\<lambda>a c. 10 * a + digitVal c) 0 (padStart k (CHR ''0'') (natToString n)) = n"
    by (simp add: padStart_def foldl_zeros foldl_natToString)
  then show ?thesis
    by (simp add: parseNat_def padStart_digits padStart_nonempty)
qed

lemma splitAt_digits:
  assumes "list_all isDigit ds" and "\<not> isDigit c"
  shows "splitAt c (ds @ c # rest) = Some (ds, rest)"
proof -
  have notin: "c \<notin> set ds" using assms by (auto simp: list_all_iff)
  then have tw: "takeWhile (\<lambda>x. x \<noteq> c) (ds @ c # rest) = ds"
    by (induction ds) auto
  from notin have dw: "dropWhile (\<lambda>x. x \<noteq> c) (ds @ c # rest) = c # rest"
    by (induction ds) auto
  show ?thesis by (simp add: splitAt_def tw dw)
qed

lemma toString_nonneg: "0 \<le> i \<Longrightarrow> toString i = natToString (nat i)"
  by (simp add: toString_def)

subsection \<open>The time of day read from the Date object\<close>

lemma getHours_newDate: "getHours (newDate m) = (m div 3600000) mod 24"
proof -
  have "newDate m = m + 3600000 * (- 613632)" by (simp add: newDate_def)
  then have "newDate m div 3600000 = m div 3600000 + 24 * (- 25568)" by simp
  then show ?thesis unfolding getHours_def by (metis mod_mult_self2)
qed

lemma getMinutes_newDate: "getMinutes (newDate m) = (m div 60000) mod 60"
proof -
  have "newDate m = m + 60000 * (- 36817920)" by (simp add: newDate_def)
  then have "newDate m div 60000 = m div 60000 + 60 * (- 613632)" by simp
  then show ?thesis unfolding getMinutes_def by (metis mod_mult_self2)
qed

lemma getSeconds_newDate: "getSeconds (newDate m) = (m div 1000) mod 60"
proof -
  have "newDate m = m + 1000 * (- 2209075200)" by (simp add: newDate_def)
  then have "newDate m div 1000 = m div 1000 + 60 * (- 36817920)" by simp
  then show ?thesis unfolding getSeconds_def by (metis mod_mult_self2)
qed

lemma hms_le:
  fixes m :: int
  assumes "0 \<le> m"
  shows "(m div 3600000 mod 24) * 3600000 + (m div 60000 mod 60) * 60000
           + (m div 1000 mod 60) * 1000 \<le> m"
proof -
  define x where "x = m div 1000"
  define y where "y = x div 60"
  define z where "z = y div 60"
  have m1: "m div 60000 = y"
    using zdiv_zmult2_eq [of 60 m 1000] by (simp add: x_def y_def)
  have m2: "m div 3600000 = z"
    using zdiv_zmult2_eq [of 60 m 60000] m1 by (simp add: z_def)
  have x0: "0 \<le> x" using assms by (simp add: x_def)
  then have y0: "0 \<le> y" by (simp add: y_def)
  then have z0: "0 \<le> z" by (simp add: z_def)
  have a: "x mod 60 = x - 60 * y" by (simp add: y_def minus_mult_div_eq_mod)
  have b: "y mod 60 = y - 60 * z" by (simp add: z_def minus_mult_div_eq_mod)
  have c: "z mod 24 \<le> z" using z0 by (rule zmod_le_nonneg_dividend)
  have "m - 1000 * x = m mod 1000" by (simp add: x_def minus_mult_div_eq_mod)
  moreover have "0 \<le> m mod 1000" by simp
  ultimately have d: "1000 * x \<le> m" by linarith
  have e: "(z mod 24) * 3600000 + (y - 60 * z) * 60000 + (x - 60 * y) * 1000 \<le> m"
    using c d by (simp add: algebra_simps)
  show ?thesis unfolding m1 m2 x_def [symmetric] a b by (rule e)
qed

text \<open>
  The shape of the formatted string for a non-negative offset: three two-digit fields
  read from the Date object and the remainder, all as unsigned numerals.
\<close>

lemma formatTimestamp_nonneg:
  assumes m0: "0 \<le> m"
    and h: "h = (m div 3600000) mod 24"
    and mi: "mi = (m div 60000) mod 60"
    and s: "s = (m div 1000) mod 60"
    and r: "r = m - (h * 3600000 + mi * 60000 + s * 1000)"
  shows "formatTimestamp m =
           padStart 2 (CHR ''0'') (natToString (nat h)) @ CHR '':''
           # padStart 2 (CHR ''0'') (natToString (nat mi)) @ CHR '':''
           # padStart 2 (CHR ''0'') (natToString (nat s)) @ CHR ''#''
           # padStart 3 (CHR ''0'') (natToString (nat r))"
    and "0 \<le> h" and "0 \<le> mi" and "0 \<le> s" and "0 \<le> r"
proof -
  show h0: "0 \<le> h" and mi0: "0 \<le> mi" and s0: "0 \<le> s"
    unfolding h mi s by (rule pos_mod_sign, simp)+
  have "h * 3600000 + mi * 60000 + s * 1000 \<le> m"
    unfolding h mi s by (rule hms_le [OF m0])
  then show r0: "0 \<le> r" unfolding r by simp
  have gh: "getHours (newDate m) = h" by (simp only: getHours_newDate h)
  have gm: "getMinutes (newDate m) = mi" by (simp only: getMinutes_newDate mi)
  have gs: "getSeconds (newDate m) = s" by (simp only: getSeconds_newDate s)
  show "formatTimestamp m =
           padStart 2 (CHR ''0'') (natToString (nat h)) @ CHR '':''
           # padStart 2 (CHR ''0'') (natToString (nat mi)) @ CHR '':''
           # padStart 2 (CHR ''0'') (natToString (nat s)) @ CHR ''#''
           # padStart 3 (CHR ''0'') (natToString (nat r))"
    unfolding formatTimestamp_def Let_def gh gm gs r [symmetric]
    by (simp add: toString_nonneg h0 mi0 s0 r0)
qed

text \<open>
  Below 24 hours the hour of day is the number of whole hours, and the formatted string
  is the one of plain integer division.
\<close>

lemma hours_below_24:
  fixes m :: int
  assumes "0 \<le> m" and "m < 86400000"
  shows "(m div 3600000) mod 24 = m div 3600000"
proof -
  have "m div 3600000 \<le> 86399999 div 3600000"
    using assms(2) by (intro zdiv_mono1) simp_all
  then have "m div 3600000 < 24" by simp
  moreover have "0 \<le> m div 3600000" using assms(1) by simp
  ultimately show ?thesis by simp
qed

lemma formatTimestamp_below_24h:
  assumes "0 \<le> m" and "m < 86400000"
  shows "formatTimestamp m =
           padStart 2 (CHR ''0'') (natToString (nat (m div 3600000))) @ CHR '':''
           # padStart 2 (CHR ''0'') (natToString (nat ((m div 60000) mod 60))) @ CHR '':''
           # padStart 2 (CHR ''0'') (natToString (nat ((m div 1000) mod 60))) @ CHR ''#''
           # padStart 3 (CHR ''0'')
               (natToString (nat (m - (m div 3600000 * 3600000 + (m div 60000) mod 60 * 60000
                  + (m div 1000) mod 60 * 1000))))"
  using formatTimestamp_nonneg(1) [OF assms(1) hours_below_24 [OF assms, symmetric] refl refl refl]
  by simp

subsection \<open>The round trip through the parser\<close>

text \<open>
  Below 24 hours every field of the formatted string has the width the grammar asks
  for, and the parser gives the offset back.
\<close>

lemma parse_eval_bad: "parseTimestamp ''01:00:00#86400000'' = None"
  by (simp add: parseTimestamp_def splitAt_def parseNat_def isDigit_def digitVal_def)

lemma length_natToString_2: "n < 100 \<Longrightarrow> length (natToString n) \<le> 2"
  by (cases "n < 10") (simp_all add: natToString_small natToString_large)

lemma length_natToString_3: "n < 1000 \<Longrightarrow> length (natToString n) \<le> 3"
proof (cases "n < 10")
  case True
  then show ?thesis by (simp add: natToString_small)
next
  case False
  assume "n < 1000"
  then have "n div 10 < 100" by simp
  from length_natToString_2 [OF this] False show ?thesis
    by (simp add: natToString_large)
qed

lemma length_pad2: "n < 100 \<Longrightarrow> length (padStart 2 (CHR ''0'') (natToString n)) = 2"
  using length_natToString_2 [of n] by (simp add: padStart_def)

lemma length_pad3: "n < 1000 \<Longrightarrow> length (padStart 3 (CHR ''0'') (natToString n)) = 3"
  using length_natToString_3 [of n] by (simp add: padStart_def)

lemma length_pad2_ge: "2 \<le> length (padStart 2 (CHR ''0'') (natToString n))"
  by (simp add: padStart_def)

lemma hms_eq:
  fixes m :: int
  assumes "0 \<le> m" and "m < 86400000"
  shows "(m div 3600000 mod 24) * 3600000 + (m div 60000 mod 60) * 60000
           + (m div 1000 mod 60) * 1000 = 1000 * (m div 1000)"
proof -
  define x where "x = m div 1000"
  define y where "y = x div 60"
  define z where "z = y div 60"
  have m1: "m div 60000 = y"
    using zdiv_zmult2_eq [of 60 m 1000] by (simp add: x_def y_def)
  have m2: "m div 3600000 = z"
    using zdiv_zmult2_eq [of 60 m 60000] m1 by (simp add: z_def)
  have a: "x mod 60 = x - 60 * y" by (simp add: y_def minus_mult_div_eq_mod)
  have b: "y mod 60 = y - 60 * z" by (simp add: z_def minus_mult_div_eq_mod)
  have c: "z mod 24 = z" using hours_below_24 [OF assms] by (simp only: m2)
  have e: "z * 3600000 + (y - 60 * z) * 60000 + (x - 60 * y) * 1000 = 1000 * x"
    by (simp add: algebra_simps)
  show ?thesis unfolding m1 m2 x_def [symmetric] a b c by (rule e)
qed

lemma formatTimestamp_roundtrip_below_24h:
  assumes m0: "0 \<le> m" and m24: "m < 86400000"
  shows "parseTimestamp (formatTimestamp m) = Some m"
proof -
  define h where "h = (m div 3600000) mod 24"
  define mi where "mi = (m div 60000) mod 60"
  define s where "s = (m div 1000) mod 60"
  define r where "r = m - (h * 3600000 + mi * 60000 + s * 1000)"
  note f = formatTimestamp_nonneg [OF m0 h_def mi_def s_def r_def]
  have hb: "h < 24" and mib: "mi < 60" and sb: "s < 60"
    unfolding h_def mi_def s_def by (rule pos_mod_bound, simp)+
  have "h * 3600000 + mi * 60000 + s * 1000 = 1000 * (m div 1000)"
    unfolding h_def mi_def s_def by (rule hms_eq [OF m0 m24])
  then have "r = m - 1000 * (m div 1000)" unfolding r_def by (simp only:)
  also have "\<dots> = m mod 1000" by (rule minus_mult_div_eq_mod)
  finally have "r = m mod 1000" .
  moreover have "m mod 1000 < 1000" by (rule pos_mod_bound) simp
  ultimately have rb: "r < 1000" by (simp only:)
  have colon: "\<not> isDigit (CHR '':'')" and hash: "\<not> isDigit (CHR ''#'')"
    by (simp_all add: isDigit_def)
  have nh: "nat h < 100" "2 \<le> length (padStart 2 (CHR ''0'') (natToString (nat h)))"
    using hb f(2) by (simp_all add: length_pad2_ge)
  have nmi: "nat mi < 60" "length (padStart 2 (CHR ''0'') (natToString (nat mi))) = 2"
    using mib f(3) by (simp_all add: length_pad2)
  have ns: "nat s < 60" "length (padStart 2 (CHR ''0'') (natToString (nat s))) = 2"
    using sb f(4) by (simp_all add: length_pad2)
  have nr: "length (padStart 3 (CHR ''0'') (natToString (nat r))) = 3"
    using rb f(5) by (simp add: length_pad3)
  have "int (nat h * 3600000 + nat mi * 60000 + nat s * 1000) + int (nat r)
          = h * 3600000 + mi * 60000 + s * 1000 + r"
    using f(2-5) by simp
  also have "\<dots> = m" by (simp add: r_def)
  finally have sum:
    "int (nat h * 3600000 + nat mi * 60000 + nat s * 1000) + int (nat r) = m" .
  show ?thesis
    unfolding f(1) parseTimestamp_def
    by (simp only: splitAt_digits [OF padStart_digits colon]
          splitAt_digits [OF padStart_digits hash] parseNat_padStart
          option.case prod.case sum nh nmi ns nr simp_thms if_True)
qed

subsection \<open>Evaluating the formatter\<close>

lemma formatTimestamp_examples:
  "formatTimestamp 0 = ''00:00:00#000''"
  "formatTimestamp 1000 = ''00:00:01#000''"
  "formatTimestamp 2000 = ''00:00:02#000''"
  "formatTimestamp 3000 = ''00:00:03#000''"
  "formatTimestamp 5000 = ''00:00:05#000''"
  by (simp add: formatTimestamp_def newDate_def getHours_def getMinutes_def
        getSeconds_def Let_def,
      simp add: toString_def,
      simp add: natToString_small natToString_large digitChar_def,
      simp add: padStart_def numeral_2_eq_2)+

lemmas handler_defs = initialSession_def testBefore_def stepStarted_def stepFinished_def
  testAfter_def videoOf_def truthy_def subtitleText_def stepsSortedByStartTime_def
  subtitleFormat_def msIdentifier_def stepTitle_def elapsed_def cue_def nl_def Let_def
  readEnd_def endOf_def inheritedNames_def

subsection \<open>The association list of steps\<close>

lemma update_present:
  "map_of al k = Some v \<Longrightarrow>
     \<exists>pre post. al = pre @ (k, v) # post \<and> k \<notin> fst ` set pre
        \<and> AList.update k v' al = pre @ (k, v') # post"
proof (induction al)
  case Nil
  then show ?case by simp
next
  case (Cons a al)
  obtain k' w where a: "a = (k', w)" by (cases a)
  show ?case
  proof (cases "k' = k")
    case True
    with Cons.prems a have "a # al = [] @ (k, v) # al" "AList.update k v' (a # al) = [] @ (k, v') # al"
      by simp_all
    then show ?thesis by (metis empty_iff image_empty list.set(1))
  next
    case False
    with Cons.prems a have "map_of al k = Some v" by simp
    from Cons.IH [OF this] obtain pre post where
      "al = pre @ (k, v) # post" "k \<notin> fst ` set pre" "AList.update k v' al = pre @ (k, v') # post"
      by blast
    with False a have "a # al = (a # pre) @ (k, v) # post" "k \<notin> fst ` set (a # pre)"
      "AList.update k v' (a # al) = (a # pre) @ (k, v') # post"
      by auto
    then show ?thesis by blast
  qed
qed

subsection \<open>The event stream\<close>

lemma run_append:
  "run pp cfg (xs @ ys) s =
     (fst (run pp cfg ys (fst (run pp cfg xs s))),
      snd (run pp cfg xs s) @ snd (run pp cfg ys (fst (run pp cfg xs s))))"
  by (induction xs arbitrary: s) (auto split: prod.splits)

lemma testBefore_const:
  "testBefore now s =
     \<lparr>testStartedAt = Some now, steps = [], builtinEnd = builtinEnd s\<rparr>"
  by (simp add: testBefore_def)

text \<open>
  What follows a test-start event depends on the session before it only through the
  \<open>end\<close> properties of the built-in objects.
\<close>

lemma run_TestBefore:
  "builtinEnd s = builtinEnd s' \<Longrightarrow>
     run pp cfg (TestBefore now # es) s = run pp cfg (TestBefore now # es) s'"
  by (simp add: testBefore_const)

subsection \<open>The rendering loop\<close>

lemma forEachStep_cues:
  "forEachStep sep p xs i acc = acc @ concat (map (cueText sep) (cues p i xs))"
  by (induction xs arbitrary: i acc) (simp_all add: cueText_def split: option.splits)

lemma subtitleFormat_vtt: "(subtitleFormat cfg = ''vtt'') = (format cfg = Some ''WEBVTT'')"
  by (simp add: subtitleFormat_def)

lemma subtitleText_cues:
  "subtitleText cfg s =
     (if format cfg = Some ''WEBVTT'' then ''WEBVTT'' @ nl @ nl else [])
     @ concat (map (cueText (if format cfg = Some ''WEBVTT'' then CHR ''.'' else CHR '',''))
                 (emittedCues s))"
  by (simp add: subtitleText_def forEachStep_cues emittedCues_def msIdentifier_def
        subtitleFormat_vtt)

lemma cues_append: "cues p i (xs @ ys) = cues p i xs @ cues p (i + length xs) ys"
  by (induction xs arbitrary: i) simp_all

lemma cues_steps:
  "map (\<lambda>c. fst (snd c)) (cues p i xs) = filter (\<lambda>r. truthy (readEnd p r)) xs"
  by (induction xs arbitrary: i) (simp_all add: truthy_def split: option.splits)

lemma cues_empty: "\<forall>r\<in>set xs. \<not> truthy (readEnd p r) \<Longrightarrow> cues p i xs = []"
  by (induction xs arbitrary: i) (simp_all add: truthy_def split: option.splits)

lemma readEnd_own: "stepEnd r = Some e \<Longrightarrow> readEnd p r = Some e"
  by (simp add: readEnd_def)

lemma natToString_head: "\<exists>d ds. natToString n = d # ds \<and> isDigit d"
  using natToString_digits [of n] natToString_nonempty [of n]
  by (cases "natToString n") simp_all

lemma cueText_head: "\<exists>d ds. cueText sep c = d # ds \<and> isDigit d"
proof -
  obtain i r e where c: "c = (i, r, e)" by (cases c)
  from natToString_head [of "i + 1"] obtain d ds where "natToString (i + 1) = d # ds" "isDigit d"
    by blast
  then show ?thesis by (simp add: c cueText_def cue_def)
qed

lemma concat_cues_head:
  "concat (map (cueText sep) cs) = [] \<or> (\<exists>d ds. concat (map (cueText sep) cs) = d # ds \<and> isDigit d)"
proof (cases cs)
  case Nil
  then show ?thesis by simp
next
  case (Cons c cs')
  from cueText_head [of sep c] obtain d ds where "cueText sep c = d # ds" "isDigit d" by blast
  with Cons show ?thesis by simp
qed

subsection \<open>Replacing the placeholder\<close>

lemma replaceFirst_split: "c \<notin> set a \<Longrightarrow> replaceFirst c r (a @ c # b) = a @ r @ b"
  by (induction a) auto

lemma hash_not_in_field: "CHR ''#'' \<notin> set (padStart k (CHR ''0'') (toString i))"
proof -
  have "\<not> isDigit (CHR ''#'')" by (simp add: isDigit_def)
  then have "CHR ''#'' \<notin> set (natToString n)" for n
    using natToString_digits [of n] by (auto simp: list_all_iff)
  then show ?thesis by (auto simp: padStart_def toString_def)
qed

lemma replaceFirst_formatTimestamp:
  "replaceFirst (CHR ''#'') [sep] (formatTimestamp m) =
     (let hours = getHours (newDate m);
          minutes = getMinutes (newDate m);
          seconds = getSeconds (newDate m)
      in padStart 2 (CHR ''0'') (toString hours) @ '':''
         @ padStart 2 (CHR ''0'') (toString minutes) @ '':''
         @ padStart 2 (CHR ''0'') (toString seconds) @ [sep]
         @ padStart 3 (CHR ''0'')
             (toString (m - (hours * 3600000 + minutes * 60000 + seconds * 1000))))"
proof -
  define a where "a = padStart 2 (CHR ''0'') (toString (getHours (newDate m))) @ '':''
         @ padStart 2 (CHR ''0'') (toString (getMinutes (newDate m))) @ '':''
         @ padStart 2 (CHR ''0'') (toString (getSeconds (newDate m)))"
  define b where "b = padStart 3 (CHR ''0'')
             (toString (m - (getHours (newDate m) * 3600000 + getMinutes (newDate m) * 60000
                + getSeconds (newDate m) * 1000)))"
  have notin: "CHR ''#'' \<notin> set a"
    unfolding a_def using hash_not_in_field by simp
  have "formatTimestamp m = a @ CHR ''#'' # b"
    by (simp add: formatTimestamp_def Let_def a_def b_def)
  then have "replaceFirst (CHR ''#'') [sep] (formatTimestamp m) = a @ [sep] @ b"
    using replaceFirst_split [OF notin] by simp
  then show ?thesis by (simp add: Let_def a_def b_def)
qed

subsection \<open>The test-end handler\<close>

lemma videoOf_Some:
  "videoOf t = Some video \<longleftrightarrow>
     (\<exists>test arts. t = Some test \<and> artifacts test = Some arts \<and> arts ''video'' = Some video
        \<and> video \<noteq> [])"
  by (auto simp: videoOf_def truthy_def split: option.splits)

lemma videoOf_None:
  "videoOf t = None \<longleftrightarrow>
     \<not> (\<exists>test arts video. t = Some test \<and> artifacts test = Some arts
          \<and> arts ''video'' = Some video \<and> video \<noteq> [])"
  by (auto simp: videoOf_def truthy_def split: option.splits)

lemma testAfter_video:
  assumes "t = Some test" "artifacts test = Some arts" "arts ''video'' = Some video"
    "video \<noteq> []" "pp video = (dir, fileName)"
  shows "testAfter pp cfg ok s t =
     (if ok
      then (Some (test\<lparr>artifacts := Some (arts(''subtitle'' \<mapsto>
                     dir @ ''/'' @ fileName @ ''.'' @ subtitleFormat cfg))\<rparr>),
            Written (dir @ ''/'' @ fileName @ ''.'' @ subtitleFormat cfg) (subtitleText cfg s))
      else (t, WriteRejected (dir @ ''/'' @ fileName @ ''.'' @ subtitleFormat cfg)
                 (subtitleText cfg s)))"
proof -
  have "videoOf t = Some video" using assms by (simp add: videoOf_Some)
  then show ?thesis using assms by (simp add: testAfter_def Let_def)
qed

subsection \<open>Sorting by start instant\<close>

lemma sorted_split2:
  assumes "sorted (map f xs)" and "a \<in> set xs" and "b \<in> set xs" and "f a < (f b :: int)"
  shows "\<exists>A B C. xs = A @ a # B @ b # C"
proof -
  from assms(3) obtain P Q where pq: "xs = P @ b # Q" by (auto simp: in_set_conv_decomp)
  have "a \<noteq> b" using assms(4) by auto
  have "a \<notin> set Q"
  proof
    assume "a \<in> set Q"
    with assms(1) pq have "f b \<le> f a" by (simp add: sorted_append)
    with assms(4) show False by simp
  qed
  with assms(2) pq \<open>a \<noteq> b\<close> have "a \<in> set P" by auto
  then obtain A B where "P = A @ a # B" by (auto simp: in_set_conv_decomp)
  with pq have "xs = A @ a # B @ b # Q" by simp
  then show ?thesis by blast
qed

lemma sorted_stepsSorted: "sorted (map startedAt (stepsSortedByStartTime s))"
  by (simp add: stepsSortedByStartTime_def)

lemma set_stepsSorted: "set (stepsSortedByStartTime s) = snd ` set (steps s)"
  by (simp add: stepsSortedByStartTime_def)

lemma stepFinished_steps:
  "steps (stepFinished now a s) \<noteq> steps s \<Longrightarrow>
     \<exists>st j r. a = Some st \<and> id' st = Some j \<and> j \<noteq> [] \<and> map_of (steps s) j = Some r
        \<and> steps (stepFinished now a s) =
            AList.update j (r\<lparr>stepEnd := Some (elapsed now (testStartedAt s))\<rparr>) (steps s)"
  by (auto simp: stepFinished_def split: option.splits if_splits)

lemma stepFinished_keeps_starts:
  "map (\<lambda>(k, r). (k, startedAt r)) (steps (stepFinished now a s))
     = map (\<lambda>(k, r). (k, startedAt r)) (steps s)"
proof (cases "steps (stepFinished now a s) = steps s")
  case True
  then show ?thesis by simp
next
  case False
  from stepFinished_steps [OF this] obtain j r where r: "map_of (steps s) j = Some r"
    and upd: "steps (stepFinished now a s) =
       AList.update j (r\<lparr>stepEnd := Some (elapsed now (testStartedAt s))\<rparr>) (steps s)"
    by blast
  from update_present [OF r, of "r\<lparr>stepEnd := Some (elapsed now (testStartedAt s))\<rparr>"]
  obtain pre post where "steps s = pre @ (j, r) # post"
    "AList.update j (r\<lparr>stepEnd := Some (elapsed now (testStartedAt s))\<rparr>) (steps s)
       = pre @ (j, r\<lparr>stepEnd := Some (elapsed now (testStartedAt s))\<rparr>) # post"
    by blast
  with upd show ?thesis by simp
qed

subsection \<open>The step-finished handler\<close>

text \<open>
  What the handler does in each case of its guard. An identifier that is no key of
  \<open>steps\<close> leaves the session as it is unless it is an inherited name.
\<close>

lemma stepFinished_missing:
  "stepFinished now None s = s"
  "id' step = None \<Longrightarrow> stepFinished now (Some step) s = s"
  "id' step = Some [] \<Longrightarrow> stepFinished now (Some step) s = s"
  by (simp_all add: stepFinished_def)

lemma stepFinished_unknown:
  "id' step = Some i \<Longrightarrow> map_of (steps s) i = None \<Longrightarrow> i \<notin> set inheritedNames \<Longrightarrow>
     stepFinished now (Some step) s = s"
  by (simp add: stepFinished_def)

lemma stepFinished_inherited:
  "id' step = Some i \<Longrightarrow> map_of (steps s) i = None \<Longrightarrow> i \<in> set inheritedNames \<Longrightarrow>
     stepFinished now (Some step) s =
       s\<lparr>builtinEnd := (builtinEnd s)(i \<mapsto> elapsed now (testStartedAt s))\<rparr>"
  by (auto simp: stepFinished_def inheritedNames_def)

lemma stepFinished_known:
  assumes "id' step = Some i" and "i \<noteq> []" and "map_of (steps s) i = Some r"
  shows "\<exists>pre post. steps s = pre @ (i, r) # post \<and> i \<notin> fst ` set pre
           \<and> stepFinished now (Some step) s =
               s\<lparr>steps := pre @ (i, r\<lparr>stepEnd := Some (elapsed now (testStartedAt s))\<rparr>) # post\<rparr>"
proof -
  from update_present [OF assms(3), of "r\<lparr>stepEnd := Some (elapsed now (testStartedAt s))\<rparr>"]
  obtain pre post where "steps s = pre @ (i, r) # post" "i \<notin> fst ` set pre"
    "AList.update i (r\<lparr>stepEnd := Some (elapsed now (testStartedAt s))\<rparr>) (steps s)
       = pre @ (i, r\<lparr>stepEnd := Some (elapsed now (testStartedAt s))\<rparr>) # post"
    by blast
  then show ?thesis using assms by (auto simp: stepFinished_def)
qed

section \<open>Claims about the formatter\<close>

text \<open>
  Claim C1 says that the hour field of \<open>formatTimestamp m\<close> is \<open>m div 3600000\<close>, not
  reduced modulo 24, so that 90000000 ms (25 hours) shows 25 in the hour field. The
  function reads the hours from a Date object, whose hour of day wraps at 24: at
  90000000 the hour field is 01 and the whole day that was dropped is carried by the
  last field, which is no longer three digits wide.
\<close>

theorem formatTimestamp_wraps_at_24h:
  "formatTimestamp 90000000 = ''01:00:00#86400000''"
  by (simp add: formatTimestamp_def newDate_def getHours_def getMinutes_def
        getSeconds_def Let_def,
      simp add: toString_def,
      simp add: natToString_small natToString_large digitChar_def,
      simp add: padStart_def)

text \<open>
  Claim C3 says that for every non-negative number of milliseconds \<open>m\<close> a parser of
  \<open>HH:MM:SS#mmm\<close> gives \<open>m\<close> back from \<open>formatTimestamp m\<close>. From 24 hours on the
  formatted string is outside that grammar, for the reason given under C1: at
  90000000 the last field has eight digits, and the parser has no result. (Below 24
  hours the round trip holds, lemma \<open>formatTimestamp_roundtrip_below_24h\<close>.)
\<close>

theorem formatTimestamp_no_roundtrip_from_24h:
  "formatTimestamp 90000000 = ''01:00:00#86400000''
   \<and> parseTimestamp (formatTimestamp 90000000) = None"
proof -
  have f: "formatTimestamp 90000000 = ''01:00:00#86400000''"
    by (simp add: formatTimestamp_def newDate_def getHours_def getMinutes_def
          getSeconds_def Let_def,
        simp add: toString_def,
        simp add: natToString_small natToString_large digitChar_def,
        simp add: padStart_def)
  show ?thesis unfolding f by (simp add: parse_eval_bad)
qed


section \<open>Claims about the event handlers\<close>

text \<open>
  Claim C2 says that cue numbers are consecutive over the finished steps, so that a
  step that never finished leaves no gap. The loop numbers a cue with the position of
  its step among all recorded steps, and skips the unfinished ones afterwards: below,
  step \<open>a\<close> starts and never finishes, step \<open>b\<close> starts and finishes, and the only
  cue of the file has number 2.
\<close>

theorem unfinished_step_leaves_gap:
  "last (snd (run (\<lambda>p. (''/a/b'', ''test'')) \<lparr>format = None\<rparr>
     [TestBefore 1000,
      StepStarted 1000 ''a'' \<lparr>actor = ''I'', name = ''amOnPage'', args = Some [''/''], id' = None\<rparr>,
      StepStarted 2000 ''b'' \<lparr>actor = ''I'', name = ''click'', args = Some [''Login''], id' = None\<rparr>,
      StepFinished 3000
        (Some \<lparr>actor = ''I'', name = ''click'', args = Some [''Login''], id' = Some ''b''\<rparr>),
      TestAfter True (Some \<lparr>artifacts = Some [''video'' \<mapsto> ''/a/b/test.mp4'']\<rparr>)]
     initialSession))
   = TestOut
       (Some \<lparr>artifacts = Some [''video'' \<mapsto> ''/a/b/test.mp4'',
                                 ''subtitle'' \<mapsto> ''/a/b/test.srt'']\<rparr>)
       (Written ''/a/b/test.srt''
          (''2'' @ nl @ ''00:00:01,000 --> 00:00:02,000'' @ nl @ ''I.click(Login)'' @ nl @ nl))"
  by (simp add: handler_defs formatTimestamp_examples natToString_small digitChar_def)

text \<open>
  Claim C5: the title stored at step start is \<open>actor.name(args joined by comma)\<close>;
  when that string is longer than 100 characters, the stored title is its first 100
  characters followed by \<open>...\<close>, and otherwise the string itself.
\<close>

theorem stepStarted_title:
  "\<exists>r. map_of (steps (snd (stepStarted now uuid step s))) uuid = Some r
     \<and> (let t = actor step @ ''.'' @ name step @ ''(''
                  @ (case args step of Some as \<Rightarrow> join '','' as | None \<Rightarrow> []) @ '')''
        in (length t > 100 \<longrightarrow> title r = take 100 t @ ''...'')
         \<and> (length t \<le> 100 \<longrightarrow> title r = t))"
  by (simp add: stepStarted_def stepTitle_def Let_def update_conv')

theorem stepStarted_title_witness:
  "(\<exists>r. map_of (steps (snd (stepStarted 5 ''u1''
            \<lparr>actor = ''I'', name = ''see'', args = Some [replicate 60 (CHR ''a''), replicate 60 (CHR ''b'')],
             id' = None\<rparr> initialSession))) ''u1'' = Some r
     \<and> title r = ''I.see('' @ replicate 60 (CHR ''a'') @ '','' @ replicate 33 (CHR ''b'') @ ''...'')
   \<and> (\<exists>r. map_of (steps (snd (stepStarted 5 ''u2''
            \<lparr>actor = ''I'', name = ''click'', args = Some [''Login''], id' = None\<rparr>
            initialSession))) ''u2'' = Some r
     \<and> title r = ''I.click(Login)'')"
  using stepStarted_title [of 5 "''u1''"
      "\<lparr>actor = ''I'', name = ''see'', args = Some [replicate 60 (CHR ''a''), replicate 60 (CHR ''b'')],
             id' = None\<rparr>" initialSession]
    stepStarted_title [of 5 "''u2''"
      "\<lparr>actor = ''I'', name = ''click'', args = Some [''Login''], id' = None\<rparr>" initialSession]
  by (auto simp: Let_def)

text \<open>
  Claim C6 says that the step-finished handler leaves the session state unchanged
  whenever the descriptor carries an identifier with no matching record. The guard
  reads \<open>steps[step.id]\<close> on a plain object, so an identifier that is an inherited
  name passes it: with the identifier \<open>__proto__\<close>, which matches no record, the
  handler sets \<open>Object.prototype.end\<close>, and from then on every step without an end
  offset of its own is rendered with that one. (For a missing descriptor, a missing
  identifier, an unknown identifier that is no inherited name, and a matching record
  the handler does what the claim says: lemmas \<open>stepFinished_missing\<close>,
  \<open>stepFinished_unknown\<close> and \<open>stepFinished_known\<close>.)
\<close>

theorem stepFinished_inherited_id_changes_state:
  "map_of (steps \<lparr>testStartedAt = Some 1000,
      steps = [(''a'', \<lparr>start = ''00:00:00#000'', startedAt = 1000, title = ''I.click()'',
                       stepEnd = None\<rparr>)],
      builtinEnd = Map.empty\<rparr>) ''__proto__'' = None
   \<and> stepFinished 3000
        (Some \<lparr>actor = ''I'', name = ''click'', args = None, id' = Some ''__proto__''\<rparr>)
        \<lparr>testStartedAt = Some 1000,
         steps = [(''a'', \<lparr>start = ''00:00:00#000'', startedAt = 1000, title = ''I.click()'',
                          stepEnd = None\<rparr>)],
         builtinEnd = Map.empty\<rparr>
     = \<lparr>testStartedAt = Some 1000,
        steps = [(''a'', \<lparr>start = ''00:00:00#000'', startedAt = 1000, title = ''I.click()'',
                         stepEnd = None\<rparr>)],
        builtinEnd = [''__proto__'' \<mapsto> ''00:00:02#000'']\<rparr>
   \<and> emittedCues \<lparr>testStartedAt = Some 1000,
        steps = [(''a'', \<lparr>start = ''00:00:00#000'', startedAt = 1000, title = ''I.click()'',
                         stepEnd = None\<rparr>)],
        builtinEnd = Map.empty\<rparr> = []
   \<and> emittedCues \<lparr>testStartedAt = Some 1000,
        steps = [(''a'', \<lparr>start = ''00:00:00#000'', startedAt = 1000, title = ''I.click()'',
                         stepEnd = None\<rparr>)],
        builtinEnd = [''__proto__'' \<mapsto> ''00:00:02#000'']\<rparr>
     = [(0, \<lparr>start = ''00:00:00#000'', startedAt = 1000, title = ''I.click()'',
              stepEnd = None\<rparr>, ''00:00:02#000'')]"
  by (simp add: stepFinished_def inheritedNames_def elapsed_def formatTimestamp_examples
        emittedCues_def stepsSortedByStartTime_def readEnd_def)


text \<open>
  Claim C8: exactly the configuration value \<open>WEBVTT\<close> gives a WebVTT document, which
  begins with \<open>WEBVTT\<close> and a blank line and has \<open>.\<close> before the milliseconds of
  each time range; every other value, and no value, gives an SRT document, which has
  no header and has \<open>,\<close> there. The last two conjuncts spell out a cue and what the
  replacement of the placeholder does to a formatted offset.
\<close>

theorem grammar_selection:
  "(format cfg = Some ''WEBVTT'' \<longrightarrow>
      subtitleFormat cfg = ''vtt''
      \<and> subtitleText cfg s =
          ''WEBVTT'' @ nl @ nl @ concat (map (cueText (CHR ''.'')) (emittedCues s)))
   \<and> (format cfg \<noteq> Some ''WEBVTT'' \<longrightarrow>
      subtitleFormat cfg = ''srt''
      \<and> subtitleText cfg s = concat (map (cueText (CHR '','')) (emittedCues s)))
   \<and> ((\<exists>rest. subtitleText cfg s = ''WEBVTT'' @ nl @ nl @ rest)
        \<longleftrightarrow> format cfg = Some ''WEBVTT'')
   \<and> cueText sep (index, step, ending) =
        natToString (index + 1) @ nl
        @ replaceFirst (CHR ''#'') [sep] (start step) @ '' --> ''
        @ replaceFirst (CHR ''#'') [sep] ending @ nl
        @ title step @ nl @ nl
   \<and> replaceFirst (CHR ''#'') [sep] (formatTimestamp m) =
       (let hours = getHours (newDate m);
            minutes = getMinutes (newDate m);
            seconds = getSeconds (newDate m)
        in padStart 2 (CHR ''0'') (toString hours) @ '':''
           @ padStart 2 (CHR ''0'') (toString minutes) @ '':''
           @ padStart 2 (CHR ''0'') (toString seconds) @ [sep]
           @ padStart 3 (CHR ''0'')
               (toString (m - (hours * 3600000 + minutes * 60000 + seconds * 1000))))"
proof -
  have srt_no_header: "subtitleText cfg s \<noteq> ''WEBVTT'' @ nl @ nl @ rest"
    if srt: "format cfg \<noteq> Some ''WEBVTT''" for rest
  proof
    assume "subtitleText cfg s = ''WEBVTT'' @ nl @ nl @ rest"
    with srt have e: "concat (map (cueText (CHR '','')) (emittedCues s))
        = CHR ''W'' # ''EBVTT'' @ nl @ nl @ rest"
      by (simp add: subtitleText_cues)
    have nd: "\<not> isDigit (CHR ''W'')" by (simp add: isDigit_def)
    from concat_cues_head [of "CHR '',''" "emittedCues s"] show False
    proof
      assume "concat (map (cueText (CHR '','')) (emittedCues s)) = []"
      with e show False by simp
    next
      assume "\<exists>d ds. concat (map (cueText (CHR '','')) (emittedCues s)) = d # ds \<and> isDigit d"
      then obtain d ds where
        "concat (map (cueText (CHR '','')) (emittedCues s)) = d # ds" "isDigit d"
        by blast
      with e nd show False by simp
    qed
  qed
  have vtt_header: "\<exists>rest. subtitleText cfg s = ''WEBVTT'' @ nl @ nl @ rest"
    if "format cfg = Some ''WEBVTT''"
    using that by (simp add: subtitleText_cues)
  have iff: "(\<exists>rest. subtitleText cfg s = ''WEBVTT'' @ nl @ nl @ rest)
        \<longleftrightarrow> format cfg = Some ''WEBVTT''"
    using srt_no_header vtt_header by blast
  show ?thesis
    using iff
    by (simp add: subtitleText_cues subtitleFormat_def cueText_def cue_def
          replaceFirst_formatTimestamp)
qed

theorem grammar_selection_witness:
  "subtitleText \<lparr>format = Some ''WEBVTT''\<rparr>
     \<lparr>testStartedAt = Some 1000,
      steps = [(''a'', \<lparr>start = ''00:00:00#000'', startedAt = 1000, title = ''I.click()'',
                       stepEnd = Some ''00:00:02#000''\<rparr>)],
      builtinEnd = Map.empty\<rparr>
   = ''WEBVTT'' @ nl @ nl @ ''1'' @ nl @ ''00:00:00.000 --> 00:00:02.000'' @ nl
     @ ''I.click()'' @ nl @ nl
   \<and> subtitleText \<lparr>format = Some ''webvtt''\<rparr>
     \<lparr>testStartedAt = Some 1000,
      steps = [(''a'', \<lparr>start = ''00:00:00#000'', startedAt = 1000, title = ''I.click()'',
                       stepEnd = Some ''00:00:02#000''\<rparr>)],
      builtinEnd = Map.empty\<rparr>
   = ''1'' @ nl @ ''00:00:00,000 --> 00:00:02,000'' @ nl @ ''I.click()'' @ nl @ nl
   \<and> subtitleText \<lparr>format = None\<rparr>
     \<lparr>testStartedAt = Some 1000,
      steps = [(''a'', \<lparr>start = ''00:00:00#000'', startedAt = 1000, title = ''I.click()'',
                       stepEnd = Some ''00:00:02#000''\<rparr>)],
      builtinEnd = Map.empty\<rparr>
   = ''1'' @ nl @ ''00:00:00,000 --> 00:00:02,000'' @ nl @ ''I.click()'' @ nl @ nl"
  using grammar_selection [where cfg = "\<lparr>format = Some ''WEBVTT''\<rparr>"
      and s = "\<lparr>testStartedAt = Some 1000,
      steps = [(''a'', \<lparr>start = ''00:00:00#000'', startedAt = 1000, title = ''I.click()'',
                       stepEnd = Some ''00:00:02#000''\<rparr>)],
      builtinEnd = Map.empty\<rparr>"]
    grammar_selection [where cfg = "\<lparr>format = Some ''webvtt''\<rparr>"
      and s = "\<lparr>testStartedAt = Some 1000,
      steps = [(''a'', \<lparr>start = ''00:00:00#000'', startedAt = 1000, title = ''I.click()'',
                       stepEnd = Some ''00:00:02#000''\<rparr>)],
      builtinEnd = Map.empty\<rparr>"]
    grammar_selection [where cfg = "\<lparr>format = None\<rparr>"
      and s = "\<lparr>testStartedAt = Some 1000,
      steps = [(''a'', \<lparr>start = ''00:00:00#000'', startedAt = 1000, title = ''I.click()'',
                       stepEnd = Some ''00:00:02#000''\<rparr>)],
      builtinEnd = Map.empty\<rparr>"]
  by (simp add: emittedCues_def stepsSortedByStartTime_def cueText_def cue_def
        natToString_small digitChar_def readEnd_def)

text \<open>
  Claim C7: the test-end handler writes a subtitle file if and only if the test result
  carries a video artifact path. Without one it writes nothing and hands the test
  result back as it was, so the \<open>subtitle\<close> entry stays unset. With one, the path of
  the file is the directory of the video, a slash, the name of the video without its
  extension, and \<open>.vtt\<close> for the configuration value \<open>WEBVTT\<close> or \<open>.srt\<close> for any
  other; when the write succeeds the path is stored under \<open>subtitle\<close> in the same
  artifact map, and when it is rejected the error leaves the handler before the entry
  is set.
\<close>

theorem testAfter_writes_iff_video:
  "((\<exists>file content. snd (testAfter pp cfg True s t) = Written file content) \<longleftrightarrow>
      (\<exists>test arts video. t = Some test \<and> artifacts test = Some arts
          \<and> arts ''video'' = Some video \<and> video \<noteq> []))
   \<and> (snd (testAfter pp cfg ok s t) \<noteq> NoWrite \<longleftrightarrow>
      (\<exists>test arts video. t = Some test \<and> artifacts test = Some arts
          \<and> arts ''video'' = Some video \<and> video \<noteq> []))
   \<and> (\<not> (\<exists>test arts video. t = Some test \<and> artifacts test = Some arts
          \<and> arts ''video'' = Some video \<and> video \<noteq> [])
        \<longrightarrow> testAfter pp cfg ok s t = (t, NoWrite))
   \<and> (t = Some test \<and> artifacts test = Some arts \<and> arts ''video'' = Some video
        \<and> video \<noteq> [] \<and> pp video = (dir, fileName) \<longrightarrow>
         (ok \<longrightarrow> testAfter pp cfg ok s t =
            (Some (test\<lparr>artifacts := Some (arts(''subtitle'' \<mapsto>
               dir @ ''/'' @ fileName
                 @ (if format cfg = Some ''WEBVTT'' then ''.vtt'' else ''.srt'')))\<rparr>),
             Written
               (dir @ ''/'' @ fileName
                  @ (if format cfg = Some ''WEBVTT'' then ''.vtt'' else ''.srt''))
               (subtitleText cfg s)))
       \<and> (\<not> ok \<longrightarrow> testAfter pp cfg ok s t =
            (t, WriteRejected
               (dir @ ''/'' @ fileName
                  @ (if format cfg = Some ''WEBVTT'' then ''.vtt'' else ''.srt''))
               (subtitleText cfg s))))"
proof -
  have a: "testAfter pp cfg ok s t = (t, NoWrite)" if "videoOf t = None"
    using that by (simp add: testAfter_def)
  have b: "snd (testAfter pp cfg ok s t) \<noteq> NoWrite" if "videoOf t = Some v" for v
    using that by (simp add: testAfter_def Let_def split: prod.splits)
  have issued: "snd (testAfter pp cfg ok s t) \<noteq> NoWrite \<longleftrightarrow> videoOf t \<noteq> None"
    using a b by (cases "videoOf t") auto
  have g: "snd (testAfter pp cfg ok s t) \<noteq> NoWrite \<longleftrightarrow>
      (\<exists>test arts video. t = Some test \<and> artifacts test = Some arts
          \<and> arts ''video'' = Some video \<and> video \<noteq> [])"
    unfolding issued videoOf_None by (rule not_not)
  have c: "\<not> (\<exists>test arts video. t = Some test \<and> artifacts test = Some arts
          \<and> arts ''video'' = Some video \<and> video \<noteq> [])
        \<longrightarrow> testAfter pp cfg ok s t = (t, NoWrite)"
    unfolding videoOf_None [symmetric] using a by (rule impI)
  have d: "t = Some test \<and> artifacts test = Some arts \<and> arts ''video'' = Some video
        \<and> video \<noteq> [] \<and> pp video = (dir, fileName) \<longrightarrow>
         (ok \<longrightarrow> testAfter pp cfg ok s t =
            (Some (test\<lparr>artifacts := Some (arts(''subtitle'' \<mapsto>
               dir @ ''/'' @ fileName
                 @ (if format cfg = Some ''WEBVTT'' then ''.vtt'' else ''.srt'')))\<rparr>),
             Written
               (dir @ ''/'' @ fileName
                  @ (if format cfg = Some ''WEBVTT'' then ''.vtt'' else ''.srt''))
               (subtitleText cfg s)))
       \<and> (\<not> ok \<longrightarrow> testAfter pp cfg ok s t =
            (t, WriteRejected
               (dir @ ''/'' @ fileName
                  @ (if format cfg = Some ''WEBVTT'' then ''.vtt'' else ''.srt''))
               (subtitleText cfg s)))"
  proof (intro impI)
    assume "t = Some test \<and> artifacts test = Some arts \<and> arts ''video'' = Some video
        \<and> video \<noteq> [] \<and> pp video = (dir, fileName)"
    then have e: "testAfter pp cfg ok s t =
     (if ok
      then (Some (test\<lparr>artifacts := Some (arts(''subtitle'' \<mapsto>
                     dir @ ''/'' @ fileName @ ''.'' @ subtitleFormat cfg))\<rparr>),
            Written (dir @ ''/'' @ fileName @ ''.'' @ subtitleFormat cfg) (subtitleText cfg s))
      else (t, WriteRejected (dir @ ''/'' @ fileName @ ''.'' @ subtitleFormat cfg)
                 (subtitleText cfg s)))"
      using testAfter_video [of t test arts video pp dir fileName cfg ok s] by blast
    show "(ok \<longrightarrow> testAfter pp cfg ok s t =
            (Some (test\<lparr>artifacts := Some (arts(''subtitle'' \<mapsto>
               dir @ ''/'' @ fileName
                 @ (if format cfg = Some ''WEBVTT'' then ''.vtt'' else ''.srt'')))\<rparr>),
             Written
               (dir @ ''/'' @ fileName
                  @ (if format cfg = Some ''WEBVTT'' then ''.vtt'' else ''.srt''))
               (subtitleText cfg s)))
       \<and> (\<not> ok \<longrightarrow> testAfter pp cfg ok s t =
            (t, WriteRejected
               (dir @ ''/'' @ fileName
                  @ (if format cfg = Some ''WEBVTT'' then ''.vtt'' else ''.srt''))
               (subtitleText cfg s)))"
      unfolding e by (simp add: subtitleFormat_def)
  qed
  have w: "(\<exists>file content. snd (testAfter pp cfg True s t) = Written file content) \<longleftrightarrow>
      videoOf t \<noteq> None"
    by (cases "videoOf t") (simp_all add: testAfter_def Let_def split: prod.splits)
  have f: "(\<exists>file content. snd (testAfter pp cfg True s t) = Written file content) \<longleftrightarrow>
      (\<exists>test arts video. t = Some test \<and> artifacts test = Some arts
          \<and> arts ''video'' = Some video \<and> video \<noteq> [])"
    unfolding w videoOf_None by (rule not_not)
  show ?thesis by (intro conjI) (rule f, rule g, rule c, rule d)
qed

theorem testAfter_writes_iff_video_witness:
  "testAfter (\<lambda>p. (''/a/b'', ''test'')) \<lparr>format = None\<rparr> True initialSession
     (Some \<lparr>artifacts = Some [''video'' \<mapsto> ''/a/b/test.mp4'']\<rparr>)
   = (Some \<lparr>artifacts = Some [''video'' \<mapsto> ''/a/b/test.mp4'',
                               ''subtitle'' \<mapsto> ''/a/b/test.srt'']\<rparr>,
      Written ''/a/b/test.srt'' [])
   \<and> testAfter (\<lambda>p. (''/a/b'', ''test'')) \<lparr>format = Some ''WEBVTT''\<rparr> False initialSession
     (Some \<lparr>artifacts = Some [''video'' \<mapsto> ''/a/b/test.mp4'']\<rparr>)
   = (Some \<lparr>artifacts = Some [''video'' \<mapsto> ''/a/b/test.mp4'']\<rparr>,
      WriteRejected ''/a/b/test.vtt'' (''WEBVTT'' @ nl @ nl))
   \<and> testAfter (\<lambda>p. (''/a/b'', ''test'')) \<lparr>format = None\<rparr> True initialSession
     (Some \<lparr>artifacts = Some [''log'' \<mapsto> ''/a/b/test.log'']\<rparr>)
   = (Some \<lparr>artifacts = Some [''log'' \<mapsto> ''/a/b/test.log'']\<rparr>, NoWrite)"
  using testAfter_writes_iff_video
    [where pp = "\<lambda>p. (''/a/b'', ''test'')" and cfg = "\<lparr>format = None\<rparr>" and ok = True
       and s = initialSession
       and t = "Some \<lparr>artifacts = Some [''video'' \<mapsto> ''/a/b/test.mp4'']\<rparr>"
       and test = "\<lparr>artifacts = Some [''video'' \<mapsto> ''/a/b/test.mp4'']\<rparr>"
       and arts = "[''video'' \<mapsto> ''/a/b/test.mp4'']" and video = "''/a/b/test.mp4''"
       and dir = "''/a/b''" and fileName = "''test''"]
    testAfter_writes_iff_video
    [where pp = "\<lambda>p. (''/a/b'', ''test'')" and cfg = "\<lparr>format = Some ''WEBVTT''\<rparr>"
       and ok = False and s = initialSession
       and t = "Some \<lparr>artifacts = Some [''video'' \<mapsto> ''/a/b/test.mp4'']\<rparr>"
       and test = "\<lparr>artifacts = Some [''video'' \<mapsto> ''/a/b/test.mp4'']\<rparr>"
       and arts = "[''video'' \<mapsto> ''/a/b/test.mp4'']" and video = "''/a/b/test.mp4''"
       and dir = "''/a/b''" and fileName = "''test''"]
    testAfter_writes_iff_video
    [where pp = "\<lambda>p. (''/a/b'', ''test'')" and cfg = "\<lparr>format = None\<rparr>" and ok = True
       and s = initialSession
       and t = "Some \<lparr>artifacts = Some [''log'' \<mapsto> ''/a/b/test.log'']\<rparr>"]
  by (simp add: subtitleText_def stepsSortedByStartTime_def initialSession_def
        subtitleFormat_def)

text \<open>
  Claim C10: when the test result carries a video artifact and no recorded step has an
  end offset, that is \<open>step.end\<close> is falsy for every recorded step (in particular
  when no step was recorded), the handler still writes the
  file, whose content is empty for SRT and is \<open>WEBVTT\<close> with a blank line for WebVTT,
  and still sets the \<open>subtitle\<close> entry of the artifact map.
\<close>

theorem no_finished_step_still_writes:
  assumes "\<forall>(k, r) \<in> set (steps s). \<not> truthy (endOf s r)"
    and "t = Some test" and "artifacts test = Some arts" and "arts ''video'' = Some video"
    and "video \<noteq> []" and "pp video = (dir, fileName)"
  shows "testAfter pp cfg True s t =
     (Some (test\<lparr>artifacts := Some (arts(''subtitle'' \<mapsto>
               dir @ ''/'' @ fileName
                 @ (if format cfg = Some ''WEBVTT'' then ''.vtt'' else ''.srt'')))\<rparr>),
      Written
        (dir @ ''/'' @ fileName @ (if format cfg = Some ''WEBVTT'' then ''.vtt'' else ''.srt''))
        (if format cfg = Some ''WEBVTT'' then ''WEBVTT'' @ nl @ nl else []))"
proof -
  have "\<forall>r\<in>set (stepsSortedByStartTime s). \<not> truthy (endOf s r)"
    using assms(1) by (auto simp: stepsSortedByStartTime_def)
  then have "emittedCues s = []"
    unfolding emittedCues_def endOf_def by (rule cues_empty)
  then have "subtitleText cfg s = (if format cfg = Some ''WEBVTT'' then ''WEBVTT'' @ nl @ nl else [])"
    by (simp add: subtitleText_cues)
  then show ?thesis
    using testAfter_video [of t test arts video pp dir fileName cfg True s] assms(2-6)
    by (simp add: subtitleFormat_def)
qed

theorem no_finished_step_still_writes_witness:
  "testAfter (\<lambda>p. (''/a/b'', ''test'')) \<lparr>format = Some ''WEBVTT''\<rparr> True
     \<lparr>testStartedAt = Some 1000,
      steps = [(''a'', \<lparr>start = ''00:00:00#000'', startedAt = 1000, title = ''I.click()'',
                       stepEnd = None\<rparr>)],
      builtinEnd = Map.empty\<rparr>
     (Some \<lparr>artifacts = Some [''video'' \<mapsto> ''/a/b/test.mp4'']\<rparr>)
   = (Some \<lparr>artifacts = Some [''video'' \<mapsto> ''/a/b/test.mp4'',
                               ''subtitle'' \<mapsto> ''/a/b/test.vtt'']\<rparr>,
      Written ''/a/b/test.vtt'' (''WEBVTT'' @ nl @ nl))"
  using no_finished_step_still_writes
    [where pp = "\<lambda>p. (''/a/b'', ''test'')" and cfg = "\<lparr>format = Some ''WEBVTT''\<rparr>"
       and s = "\<lparr>testStartedAt = Some 1000,
          steps = [(''a'', \<lparr>start = ''00:00:00#000'', startedAt = 1000, title = ''I.click()'',
                           stepEnd = None\<rparr>)],
      builtinEnd = Map.empty\<rparr>"
       and t = "Some \<lparr>artifacts = Some [''video'' \<mapsto> ''/a/b/test.mp4'']\<rparr>"
       and test = "\<lparr>artifacts = Some [''video'' \<mapsto> ''/a/b/test.mp4'']\<rparr>"
       and arts = "[''video'' \<mapsto> ''/a/b/test.mp4'']" and video = "''/a/b/test.mp4''"
       and dir = "''/a/b''" and fileName = "''test''"]
  by (simp add: truthy_def endOf_def readEnd_def)

text \<open>
  Claim C4: of two recorded steps with start instants \<open>t1 < t2\<close>, the cue of the first
  comes before the cue of the second in the subtitle, in whatever order the two steps
  finished; steps with equal start instants keep their insertion order. The theorem
  gives the text of the subtitle as the concatenation of its cues, the two cues in
  their order in that list, the list sorted by start instant, the steps of each start
  instant in insertion order, and the fact that a finish event changes neither the
  order of the records nor their start instants. A step has a cue when its
  \<open>step.end\<close> is truthy, which is what \<open>endOf\<close> reads.
\<close>

theorem cues_ordered_by_start:
  assumes "(k1, r1) \<in> set (steps s)" and "(k2, r2) \<in> set (steps s)"
    and "startedAt r1 < startedAt r2"
    and "stepEnd r1 = Some e1" and "e1 \<noteq> []"
    and "stepEnd r2 = Some e2" and "e2 \<noteq> []"
  shows "subtitleText cfg s =
           (if format cfg = Some ''WEBVTT'' then ''WEBVTT'' @ nl @ nl else [])
           @ concat (map (cueText (if format cfg = Some ''WEBVTT'' then CHR ''.'' else CHR '',''))
                       (emittedCues s))
         \<and> (\<exists>A B C n1 n2. emittedCues s = A @ (n1, r1, e1) # B @ (n2, r2, e2) # C \<and> n1 < n2)
         \<and> sorted (map (\<lambda>c. startedAt (fst (snd c))) (emittedCues s))
         \<and> (\<forall>t. filter (\<lambda>r. startedAt r = t) (map (\<lambda>c. fst (snd c)) (emittedCues s))
                = filter (\<lambda>r. startedAt r = t \<and> truthy (endOf s r)) (map snd (steps s)))
         \<and> map (\<lambda>(k, r). (k, startedAt r)) (steps (stepFinished now a s))
             = map (\<lambda>(k, r). (k, startedAt r)) (steps s)"
proof -
  let ?xs = "stepsSortedByStartTime s"
  have "r1 \<in> set ?xs" "r2 \<in> set ?xs"
    using assms(1,2) by (force simp: set_stepsSorted)+
  from sorted_split2 [OF sorted_stepsSorted this assms(3)]
  obtain P Q R where xs: "?xs = P @ r1 # Q @ r2 # R" by blast
  let ?p = "builtinEnd s ''__proto__''"
  have "emittedCues s = cues ?p 0 P @ (length P, r1, e1) # cues ?p (length P + 1) Q
          @ (length P + 1 + length Q, r2, e2) # cues ?p (length P + 1 + length Q + 1) R"
    unfolding emittedCues_def xs using assms(5,7)
    by (simp add: cues_append readEnd_own [OF assms(4)] readEnd_own [OF assms(6)])
  moreover have "length P < length P + 1 + length Q" by simp
  ultimately have order:
    "\<exists>A B C n1 n2. emittedCues s = A @ (n1, r1, e1) # B @ (n2, r2, e2) # C \<and> n1 < n2"
    by blast
  have steps_of: "map (\<lambda>c. fst (snd c)) (emittedCues s) = filter (\<lambda>r. truthy (endOf s r)) ?xs"
    by (simp add: emittedCues_def cues_steps endOf_def)
  have "map (\<lambda>c. startedAt (fst (snd c))) (emittedCues s)
          = map startedAt (map (\<lambda>c. fst (snd c)) (emittedCues s))"
    by simp
  also have "\<dots> = map startedAt (filter (\<lambda>r. truthy (endOf s r)) ?xs)"
    by (simp only: steps_of)
  finally have srt: "sorted (map (\<lambda>c. startedAt (fst (snd c))) (emittedCues s))"
    using sorted_filter [OF sorted_stepsSorted, of "\<lambda>r. truthy (endOf s r)" s] by simp
  have stable: "filter (\<lambda>r. startedAt r = t) (map (\<lambda>c. fst (snd c)) (emittedCues s))
                = filter (\<lambda>r. startedAt r = t \<and> truthy (endOf s r)) (map snd (steps s))" for t
  proof -
    have "filter (\<lambda>r. startedAt r = t) (map (\<lambda>c. fst (snd c)) (emittedCues s))
        = filter (\<lambda>r. truthy (endOf s r)) (filter (\<lambda>r. startedAt r = t) ?xs)"
      unfolding steps_of by (simp add: conj_commute)
    also have "filter (\<lambda>r. startedAt r = t) ?xs = filter (\<lambda>r. startedAt r = t) (map snd (steps s))"
      unfolding stepsSortedByStartTime_def by (rule sort_key_stable)
    finally show ?thesis by (simp add: conj_commute)
  qed
  show ?thesis
    using order srt stable
    by (simp only: subtitleText_cues stepFinished_keeps_starts simp_thms)
qed

theorem cues_ordered_by_start_witness:
  "emittedCues
     \<lparr>testStartedAt = Some 1000,
      steps = [(''b'', \<lparr>start = ''00:00:01#000'', startedAt = 2000, title = ''I.see()'',
                       stepEnd = Some ''00:00:02#000''\<rparr>),
               (''a'', \<lparr>start = ''00:00:00#000'', startedAt = 1000, title = ''I.click()'',
                       stepEnd = Some ''00:00:03#000''\<rparr>)],
      builtinEnd = Map.empty\<rparr>
   = [(0, \<lparr>start = ''00:00:00#000'', startedAt = 1000, title = ''I.click()'',
            stepEnd = Some ''00:00:03#000''\<rparr>, ''00:00:03#000''),
      (1, \<lparr>start = ''00:00:01#000'', startedAt = 2000, title = ''I.see()'',
            stepEnd = Some ''00:00:02#000''\<rparr>, ''00:00:02#000'')]"
  using cues_ordered_by_start
    [where s = "\<lparr>testStartedAt = Some 1000,
      steps = [(''b'', \<lparr>start = ''00:00:01#000'', startedAt = 2000, title = ''I.see()'',
                       stepEnd = Some ''00:00:02#000''\<rparr>),
               (''a'', \<lparr>start = ''00:00:00#000'', startedAt = 1000, title = ''I.click()'',
                       stepEnd = Some ''00:00:03#000''\<rparr>)],
      builtinEnd = Map.empty\<rparr>"
       and ?k1.0 = "''a''" and ?k2.0 = "''b''"
       and ?r1.0 = "\<lparr>start = ''00:00:00#000'', startedAt = 1000, title = ''I.click()'',
                       stepEnd = Some ''00:00:03#000''\<rparr>"
       and ?r2.0 = "\<lparr>start = ''00:00:01#000'', startedAt = 2000, title = ''I.see()'',
                       stepEnd = Some ''00:00:02#000''\<rparr>"
       and ?e1.0 = "''00:00:03#000''" and ?e2.0 = "''00:00:02#000''"]
  by (simp add: emittedCues_def stepsSortedByStartTime_def readEnd_def)

end
